theory Spec2Isabelle
  imports Main "HOL-Library.Multiset"
begin

section \<open>Data model\<close>

text \<open>
  The two units of the source are the \<open>delete\<close> command (\<open>runDeleteCmd\<close>, package main)
  and the dry-run diff report (\<open>InstanceDryRunDiff\<close>, package dyff).  Both drive
  external collaborators: the resource manager (\<open>sm\<close>, \<open>rm\<close>), the instance storage
  (\<open>iStorage\<close>), the file system and the logger.  A collaborator is a parameter of the
  model; it reads and updates an abstract world \<open>'w\<close> that is threaded through the calls
  in program order.  Every call and every log line is also appended to a trace, so that
  the order of calls is an observable of the model.  Kubernetes objects
  (\<open>*unstructured.Unstructured\<close>) are an abstract type \<open>'r\<close>.
\<close>

text \<open>
  A Go \<open>error\<close> value; \<open>nil\<close> is \<open>None\<close> of \<open>error option\<close>.  \<open>Wrapped msg err\<close> is
  \<open>fmt.Errorf\<close> with a message that ends in \<open>%w\<close>.
\<close>

datatype error = Error string | Wrapped string error

text \<open>
  Modelled from the spec: \<open>ssa.Action\<close> is declared in an imported package.  The
  constants the source names are \<open>CreatedAction\<close>, \<open>ConfiguredAction\<close> and
  \<open>DeletedAction\<close>; section 3 of the specification adds \<open>Unchanged\<close>.  \<open>OtherAction\<close>
  stands for any further value of the library's type.
\<close>

datatype action =
    CreatedAction
  | ConfiguredAction
  | UnchangedAction
  | DeletedAction
  | OtherAction string

text \<open>The fields of \<open>apiv1.Instance\<close> that \<open>runDeleteCmd\<close> reads.\<close>

record Instance =
  inst_name :: string
  inst_namespace :: string

text \<open>\<open>ssa.ChangeSetEntry\<close>: the object a change is about, and its action.\<close>

datatype 'r change = Change (subject: 'r) (change_action: action)

text \<open>
  Modelled from the spec: \<open>runtime.DeleteOptions name namespace\<close> is not part of the
  source file; the specification (4.3) says the options are scoped to the instance's name
  and namespace, so the model keeps exactly these two arguments.
\<close>

datatype delete_options = DeleteOptions string string

text \<open>\<open>ssa.WaitOptions\<close>: durations in nanoseconds, as \<open>time.Duration\<close>.\<close>

record wait_options =
  wo_interval :: int
  wo_timeout :: int

text \<open>\<open>logger.DryRunClient\<close> and \<open>logger.DryRunServer\<close>.\<close>

datatype dry_run_type = DryRunClient | DryRunServer

text \<open>
  The arguments of \<open>logger.ColorizeJoin\<close> are kept as they are passed; how they are
  rendered is the logger's concern.
\<close>

datatype 'r join_arg =
    Obj 'r
  | Act action
  | Chg "'r change"
  | Str string
  | Dry dry_run_type

datatype 'r message =
    ColorizeJoin "'r join_arg list"
  | ColorizeUnstructured 'r
  | Sprintf string "nat list"
  | Plain string

text \<open>One entry of the trace: a call to a collaborator or a line given to the logger.\<close>

datatype 'r event =
    NewResourceManager
  | StorageGet string string
  | SmDelete 'r delete_options
  | StorageDelete string string
  | WaitForTermination "'r list" wait_options
  | StartSpinner "'r message"
  | SpinnerStop
  | SmDiff 'r
  | WriteFile string string
  | LoadFiles string string
  | WriteReport
  | LogInfo "'r message"
  | LogError "error option" "'r message"

text \<open>The world the collaborators act on, and the trace of what the program did so far.\<close>

record ('w, 'r) state =
  world :: 'w
  trace :: "'r event list"

text \<open>How a run of the command ends: it returns an error or \<open>nil\<close>, or calls \<open>os.Exit\<close>.\<close>

datatype outcome = Return "error option" | Exit int

section \<open>sort.Sort\<close>

text \<open>
  \<open>sort.Sort\<close> of the Go standard library sorts in place by the \<open>Less\<close> of its argument;
  it promises a sorted permutation and no stability.  On slices shorter than twelve
  elements it runs insertion sort:
  \<^verbatim>\<open>
  for i := a + 1; i < b; i++ {
      for j := i; j > a && data.Less(j, j-1); j-- { data.Swap(j, j-1) }
  }
  \<close>
  The model is this insertion sort.  \<open>insertionStep lt ys x\<close> is the inner loop: \<open>ys\<close> is
  the sorted prefix and \<open>x\<close> the element at index \<open>i\<close>, which moves left while it is less
  than its left neighbour.  Longer slices are sorted by another algorithm of the library
  with the same contract; where the order of the result matters below, the list ascends
  strictly in the order and every sorted permutation is the same list
  (lemma \<open>sort_contract_unique\<close>).
\<close>

function insertionStep :: "('a \<Rightarrow> 'a \<Rightarrow> bool) \<Rightarrow> 'a list \<Rightarrow> 'a \<Rightarrow> 'a list" where
  "insertionStep lt ys x =
     (if ys \<noteq> [] \<and> lt x (last ys)
      then insertionStep lt (butlast ys) x @ [last ys]
      else ys @ [x])"
  by pat_completeness auto
termination
  by (relation "measure (\<lambda>(lt, ys, x). length ys)") auto

declare insertionStep.simps [simp del]

definition sort_Sort :: "('a \<Rightarrow> 'a \<Rightarrow> bool) \<Rightarrow> 'a list \<Rightarrow> 'a list" where
  "sort_Sort lt xs = foldl (insertionStep lt) [] xs"

text \<open>\<open>sort.Reverse\<close>: \<open>Less i j\<close> of the wrapper is \<open>Less j i\<close> of the wrapped value.\<close>

definition sort_Reverse :: "('a \<Rightarrow> 'a \<Rightarrow> bool) \<Rightarrow> 'a \<Rightarrow> 'a \<Rightarrow> bool" where
  "sort_Reverse lt a b = lt b a"

section \<open>The delete command\<close>

text \<open>
  The collaborators of \<open>runDeleteCmd\<close>.  \<open>objLess\<close> is \<open>Less\<close> of
  \<open>ssa.SortableUnstructureds\<close> on two objects, the canonical (apply) order of the
  imported library.  \<open>listObjects\<close> is \<open>InstanceManager.ListObjects\<close>, which decodes the
  inventory held in the instance and does not contact the cluster.
\<close>

record ('w, 'r) delete_env =
  newResourceManager :: "'w \<Rightarrow> error option \<times> 'w"
  storageGet :: "'w \<Rightarrow> string \<Rightarrow> string \<Rightarrow> (error + Instance) \<times> 'w"
  listObjects :: "Instance \<Rightarrow> error + 'r list"
  objLess :: "'r \<Rightarrow> 'r \<Rightarrow> bool"
  smDelete :: "'w \<Rightarrow> 'r \<Rightarrow> delete_options \<Rightarrow> (error + 'r change) \<times> 'w"
  storageDelete :: "'w \<Rightarrow> string \<Rightarrow> string \<Rightarrow> error option \<times> 'w"
  waitForTermination :: "'w \<Rightarrow> 'r list \<Rightarrow> wait_options \<Rightarrow> error option \<times> 'w"
  defaultWaitOptions :: wait_options

text \<open>
  The flags the command reads: \<open>kubeconfigArgs.Namespace\<close>, \<open>rootArgs.timeout\<close>,
  \<open>deleteArgs.dryrun\<close> and \<open>deleteArgs.wait\<close>.
\<close>

record flags =
  namespace :: string
  timeout :: int
  dryrun :: bool
  wait :: bool

text \<open>The variables of the deletion loop (lines 107 to 119), with the world and the trace.\<close>

record ('w, 'r) loop_state = "('w, 'r) state" +
  hasErrors :: bool
  cs :: "'r change list"

text \<open>
  Modelled from the spec: \<open>runtime.SelectObjectsFromSet\<close> is not part of the source
  file.  The specification says a ChangeSet supports filtering by Action (section 3) and
  that the wait concerns the resources that were actually deleted (4.3): the objects of
  the entries with the given action, in insertion order.
\<close>

definition SelectObjectsFromSet :: "'r change list \<Rightarrow> action \<Rightarrow> 'r list" where
  "SelectObjectsFromSet entries a = map subject (filter (\<lambda>entry. change_action entry = a) entries)"

text \<open>
  The loop of lines 109 to 119.  A failed delete is logged and sets \<open>hasErrors\<close>; the
  \<open>continue\<close> goes to the next object.  A successful delete adds the change to the set.
\<close>

fun delete_loop ::
  "('w, 'r) delete_env \<Rightarrow> delete_options \<Rightarrow> 'r list \<Rightarrow> ('w, 'r) loop_state \<Rightarrow> ('w, 'r) loop_state"
where
  "delete_loop E deleteOpts [] s = s"
| "delete_loop E deleteOpts (object # objects) s =
     (case smDelete E (world s) object deleteOpts of
        (Inl err, w') \<Rightarrow>
          delete_loop E deleteOpts objects
            (s\<lparr>world := w', hasErrors := True,
               trace := trace s @ [SmDelete object deleteOpts,
                                   LogError (Some err) (Plain ''deletion failed'')]\<rparr>)
      | (Inr chg, w') \<Rightarrow>
          delete_loop E deleteOpts objects
            (s\<lparr>world := w', cs := cs s @ [chg],
               trace := trace s @ [SmDelete object deleteOpts,
                                   LogInfo (ColorizeJoin [Chg chg])]\<rparr>))"

text \<open>
  Lines 70 to 95 of \<open>runDeleteCmd\<close>: the instance name is required, the resource
  manager is created, the instance is fetched from the storage and its objects are listed.
  Each failure returns its error at once (\<open>Inl\<close>: how the run ends); otherwise the name,
  the instance, the listed objects, the world and the trace so far are handed on.
\<close>

definition loadObjects ::
  "('w, 'r) delete_env \<Rightarrow> flags \<Rightarrow> string list \<Rightarrow> 'w \<Rightarrow>
     (outcome \<times> 'w \<times> 'r event list) + (string \<times> Instance \<times> 'r list \<times> 'w \<times> 'r event list)"
where
  "loadObjects E fl args w0 =
     (case args of
        [] \<Rightarrow> Inl (Return (Some (Error ''name is required'')), w0, [])
      | name # _ \<Rightarrow>
        (case newResourceManager E w0 of
           (Some err, w1) \<Rightarrow> Inl (Return (Some err), w1, [NewResourceManager])
         | (None, w1) \<Rightarrow>
           (let tr1 = [NewResourceManager, StorageGet name (namespace fl)] in
            case storageGet E w1 name (namespace fl) of
              (Inl err, w2) \<Rightarrow> Inl (Return (Some err), w2, tr1)
            | (Inr inst, w2) \<Rightarrow>
              (case listObjects E inst of
                 Inl err \<Rightarrow> Inl (Return (Some err), w2, tr1)
               | Inr listed \<Rightarrow> Inr (name, inst, listed, w2, tr1)))))"

text \<open>
  \<open>runDeleteCmd\<close>, lines 69 to 143.  The result is how the run ends, the world it leaves
  and the trace of what it did.  \<open>objects\<close> is the slice after line 97 has sorted it.
\<close>

definition runDeleteCmd ::
  "('w, 'r) delete_env \<Rightarrow> flags \<Rightarrow> string list \<Rightarrow> 'w \<Rightarrow> outcome \<times> 'w \<times> 'r event list"
where
  "runDeleteCmd E fl args w0 =
     (case loadObjects E fl args w0 of
        Inl early \<Rightarrow> early
      | Inr (name, inst, listed, w2, tr1) \<Rightarrow>
        (let objects = sort_Sort (sort_Reverse (objLess E)) listed in
         if dryrun fl then
           (Return None, w2,
            tr1 @ map (\<lambda>object. LogInfo (ColorizeJoin
                         [Obj object, Act DeletedAction, Dry DryRunClient])) objects)
         else
           (let s = delete_loop E (DeleteOptions name (namespace fl)) objects
                      \<lparr>world = w2,
                       trace = tr1 @ [LogInfo (Sprintf ''deleting %v resource(s)...''
                                                 [length objects])],
                       hasErrors = False, cs = []\<rparr>
            in
            if hasErrors s then (Exit 1, world s, trace s)
            else
              (let tr3 = trace s @ [StorageDelete (inst_name inst) (inst_namespace inst)] in
               case storageDelete E (world s) (inst_name inst) (inst_namespace inst) of
                 (Some err, w4) \<Rightarrow> (Return (Some err), w4, tr3)
               | (None, w4) \<Rightarrow>
                 (let deletedObjects = SelectObjectsFromSet (cs s) DeletedAction in
                  if wait fl \<and> length deletedObjects > 0 then
                    (let waitOpts = (defaultWaitOptions E)\<lparr>wo_timeout := timeout fl\<rparr>;
                         tr4 = tr3 @
                           [StartSpinner (Sprintf
                              ''waiting for %v resource(s) to be finalized...''
                              [length deletedObjects]),
                            WaitForTermination deletedObjects waitOpts,
                            SpinnerStop]
                     in
                     case waitForTermination E w4 deletedObjects waitOpts of
                       (Some err, w5) \<Rightarrow> (Return (Some err), w5, tr4)
                     | (None, w5) \<Rightarrow>
                       (Return None, w5,
                        tr4 @ [LogInfo (Plain ''all resources have been deleted'')]))
                  else (Return None, w4, tr3))))))"

abbreviation outcome_of :: "outcome \<times> 'w \<times> 'r event list \<Rightarrow> outcome" where
  "outcome_of res \<equiv> fst res"

abbreviation trace_of :: "outcome \<times> 'w \<times> 'r event list \<Rightarrow> 'r event list" where
  "trace_of res \<equiv> snd (snd res)"

subsection \<open>Observables of a run\<close>

text \<open>The slice after line 97: the listed objects sorted by the reverse of the canonical order.\<close>

abbreviation deletion_order :: "('w, 'r) delete_env \<Rightarrow> 'r list \<Rightarrow> 'r list" where
  "deletion_order E listed \<equiv> sort_Sort (sort_Reverse (objLess E)) listed"

text \<open>The objects of the per-resource delete calls of a trace, in the order of the calls.\<close>

definition delete_calls :: "'r event list \<Rightarrow> 'r list" where
  "delete_calls tr = concat (map (\<lambda>e. case e of SmDelete r _ \<Rightarrow> [r] | _ \<Rightarrow> []) tr)"

text \<open>
  The calls that act on the cluster after the instance is loaded: per-resource deletes,
  the deletion of the instance record, and the termination wait.
\<close>

fun is_effect :: "'r event \<Rightarrow> bool" where
  "is_effect (SmDelete _ _) = True"
| "is_effect (StorageDelete _ _) = True"
| "is_effect (WaitForTermination _ _) = True"
| "is_effect _ = False"

definition effect_calls :: "'r event list \<Rightarrow> 'r event list" where
  "effect_calls tr = filter is_effect tr"

fun is_wait :: "'r event \<Rightarrow> bool" where
  "is_wait (WaitForTermination _ _) = True"
| "is_wait _ = False"

text \<open>
  What the resource manager answers to the delete calls of a run that starts in world
  \<open>w\<close> and deletes the objects in the given order, and the world after the last call.
\<close>

fun delete_results ::
  "('w, 'r) delete_env \<Rightarrow> delete_options \<Rightarrow> 'w \<Rightarrow> 'r list \<Rightarrow> (error + 'r change) list"
where
  "delete_results E deleteOpts w [] = []"
| "delete_results E deleteOpts w (object # objects) =
     (case smDelete E w object deleteOpts of
        (res, w') \<Rightarrow> res # delete_results E deleteOpts w' objects)"

fun delete_world ::
  "('w, 'r) delete_env \<Rightarrow> delete_options \<Rightarrow> 'w \<Rightarrow> 'r list \<Rightarrow> 'w"
where
  "delete_world E deleteOpts w [] = w"
| "delete_world E deleteOpts w (object # objects) =
     delete_world E deleteOpts (snd (smDelete E w object deleteOpts)) objects"

text \<open>The changes among the answers: the entries of the ChangeSet after the loop.\<close>

definition changes_of :: "(error + 'r change) list \<Rightarrow> 'r change list" where
  "changes_of results = concat (map (\<lambda>res. case res of Inl _ \<Rightarrow> [] | Inr c \<Rightarrow> [c]) results)"

subsection \<open>A small cluster for concrete runs\<close>

text \<open>
  Objects are numbers ordered by \<open><\<close>; the world is the list of live objects.  Deleting
  an object of \<open>failing\<close> is refused; any other delete removes the object and reports
  \<open>DeletedAction\<close>.  The instance record is deleted with the result \<open>record_result\<close>.
\<close>

definition ex_env :: "nat list \<Rightarrow> nat list \<Rightarrow> error option \<Rightarrow> (nat list, nat) delete_env" where
  "ex_env listed failing record_result =
     \<lparr>newResourceManager = (\<lambda>w. (None, w)),
      storageGet = (\<lambda>w name ns. (Inr \<lparr>inst_name = name, inst_namespace = ns\<rparr>, w)),
      listObjects = (\<lambda>inst. Inr listed),
      objLess = (<),
      smDelete = (\<lambda>w r opts.
         if r \<in> set failing then (Inl (Error ''forbidden''), w)
         else (Inr (Change r DeletedAction), removeAll r w)),
      storageDelete = (\<lambda>w name ns. (record_result, w)),
      waitForTermination = (\<lambda>w objs opts. (None, w)),
      defaultWaitOptions = \<lparr>wo_interval = 2, wo_timeout = 60\<rparr>\<rparr>"

definition ex_flags :: "bool \<Rightarrow> bool \<Rightarrow> flags" where
  "ex_flags dry wt = \<lparr>namespace = ''default'', timeout = 300, dryrun = dry, wait = wt\<rparr>"

text \<open>The same cluster when the instance is not in the storage.\<close>

definition ex_env_missing :: "nat list \<Rightarrow> (nat list, nat) delete_env" where
  "ex_env_missing listed =
     (ex_env listed [] None)
       \<lparr>storageGet := (\<lambda>w name ns. (Inl (Error ''instance not found''), w))\<rparr>"

section \<open>The dry-run diff report\<close>

text \<open>\<open>DyffPrinter\<close> and \<open>NewDyffPrinter\<close>, lines 184 to 194.\<close>

record DyffPrinter =
  OmitHeader :: bool

definition NewDyffPrinter :: DyffPrinter where
  "NewDyffPrinter = \<lparr>OmitHeader = True\<rparr>"

text \<open>
  An argument of \<open>Print\<close>: a \<open>dyff.Report\<close>, or a value of another type, kept by the name
  of its type.
\<close>

datatype 'p print_arg = Report 'p | OtherType string

text \<open>
  The collaborators of the report.  \<open>rmDiff\<close> is \<open>rm.Diff\<close> with the default options: an
  error, or the change with the live and the merged object.  \<open>isImmutableError\<close> is
  \<open>ssaerr.IsImmutableError\<close>.  \<open>forceMarked r\<close> is \<open>ssautil.AnyInMetadata\<close> of \<open>r\<close> and the
  one-entry map from \<open>apiv1.ForceAction\<close> to \<open>apiv1.EnabledValue\<close>.  \<open>objectLess\<close> is
  \<open>Less\<close> of \<open>ssa.SortableUnstructureds\<close>.  \<open>yamlMarshal\<close>, \<open>filepathJoin\<close> and \<open>writeFile\<close>
  are \<open>yaml.Marshal\<close> (its error is dropped by the source), \<open>filepath.Join\<close> and
  \<open>os.WriteFile\<close>; \<open>loadFiles\<close>, \<open>compareInputFiles\<close> and \<open>writeReport\<close> are
  \<open>ytbx.LoadFiles\<close>, \<open>dyff.CompareInputFiles\<close> with the two options of line 223, and
  \<open>WriteReport\<close> of a \<open>dyff.HumanReport\<close> with the given \<open>OmitHeader\<close> on the writer \<open>w\<close>,
  which is part of the world.
\<close>

record ('w, 'r, 'f, 'p) diff_env =
  rmDiff :: "'w \<Rightarrow> 'r \<Rightarrow> (error + 'r change \<times> 'r option \<times> 'r option) \<times> 'w"
  isImmutableError :: "error \<Rightarrow> bool"
  forceMarked :: "'r \<Rightarrow> bool"
  objectLess :: "'r \<Rightarrow> 'r \<Rightarrow> bool"
  yamlMarshal :: "'r option \<Rightarrow> string"
  filepathJoin :: "string \<Rightarrow> string \<Rightarrow> string"
  writeFile :: "'w \<Rightarrow> string \<Rightarrow> string \<Rightarrow> error option \<times> 'w"
  loadFiles :: "'w \<Rightarrow> string \<Rightarrow> string \<Rightarrow> (error + 'f \<times> 'f) \<times> 'w"
  compareInputFiles :: "'f \<Rightarrow> 'f \<Rightarrow> error + 'p"
  writeReport :: "'w \<Rightarrow> 'p \<Rightarrow> bool \<Rightarrow> error option \<times> 'w"

text \<open>\<open>DyffPrinter.Print\<close>, lines 197 to 214: the first argument that fails ends the loop.\<close>

fun Print ::
  "('w, 'r, 'f, 'p) diff_env \<Rightarrow> DyffPrinter \<Rightarrow> 'p print_arg list \<Rightarrow> ('w, 'r) state \<Rightarrow>
     error option \<times> ('w, 'r) state"
where
  "Print E p [] s = (None, s)"
| "Print E p (Report arg # args) s =
     (case writeReport E (world s) arg (OmitHeader p) of
        (Some err, w') \<Rightarrow>
          (Some (Wrapped ''failed to print report: '' err),
           s\<lparr>world := w', trace := trace s @ [WriteReport]\<rparr>)
      | (None, w') \<Rightarrow> Print E p args (s\<lparr>world := w', trace := trace s @ [WriteReport]\<rparr>))"
| "Print E p (OtherType ty # args) s = (Some (Error (''unsupported type '' @ ty)), s)"

text \<open>\<open>DiffYAML\<close>, lines 216 to 232.\<close>

definition DiffYAML ::
  "('w, 'r, 'f, 'p) diff_env \<Rightarrow> string \<Rightarrow> string \<Rightarrow> ('w, 'r) state \<Rightarrow>
     error option \<times> ('w, 'r) state"
where
  "DiffYAML E liveFile mergedFile s =
     (case loadFiles E (world s) liveFile mergedFile of
        (Inl err, w') \<Rightarrow>
          (Some (Wrapped ''failed to load input files: '' err),
           s\<lparr>world := w', trace := trace s @ [LoadFiles liveFile mergedFile]\<rparr>)
      | (Inr (from, to), w') \<Rightarrow>
          (let s' = s\<lparr>world := w', trace := trace s @ [LoadFiles liveFile mergedFile]\<rparr> in
           case compareInputFiles E from to of
             Inl err \<Rightarrow> (Some (Wrapped ''failed to compare input files: '' err), s')
           | Inr report \<Rightarrow> Print E NewDyffPrinter [Report report] s'))"

text \<open>
  The detailed diff of a configured object, lines 271 to 285: the two snapshots are
  written to \<open>live.yaml\<close> and \<open>merged.yaml\<close> under \<open>tmpDir\<close> and compared.  The result is
  the error that \<open>InstanceDryRunDiff\<close> returns at once, or \<open>None\<close> when the body goes on.
\<close>

definition writeAndDiff ::
  "('w, 'r, 'f, 'p) diff_env \<Rightarrow> string \<Rightarrow> 'r option \<Rightarrow> 'r option \<Rightarrow> ('w, 'r) state \<Rightarrow>
     error option \<times> ('w, 'r) state"
where
  "writeAndDiff E tmpDir liveObject mergedObject s =
     (let liveYAML = yamlMarshal E liveObject;
          liveFile = filepathJoin E tmpDir ''live.yaml''
      in
      case writeFile E (world s) liveFile liveYAML of
        (Some err, w1) \<Rightarrow>
          (Some err, s\<lparr>world := w1, trace := trace s @ [WriteFile liveFile liveYAML]\<rparr>)
      | (None, w1) \<Rightarrow>
          (let mergedYAML = yamlMarshal E mergedObject;
               mergedFile = filepathJoin E tmpDir ''merged.yaml'';
               tr2 = trace s @ [WriteFile liveFile liveYAML, WriteFile mergedFile mergedYAML]
           in
           case writeFile E w1 mergedFile mergedYAML of
             (Some err, w2) \<Rightarrow> (Some err, s\<lparr>world := w2, trace := tr2\<rparr>)
           | (None, w2) \<Rightarrow> DiffYAML E liveFile mergedFile (s\<lparr>world := w2, trace := tr2\<rparr>)))"

text \<open>
  The body of the loop over the desired objects, lines 247 to 286, for one object \<open>r\<close>.
  \<open>Some err\<close> is the \<open>return err\<close> of lines 274, 280 and 284; \<open>None\<close> is the end of the
  body or a \<open>continue\<close>.
\<close>

definition diff_step ::
  "('w, 'r, 'f, 'p) diff_env \<Rightarrow> bool \<Rightarrow> string \<Rightarrow> bool \<Rightarrow> 'r \<Rightarrow> ('w, 'r) state \<Rightarrow>
     error option \<times> ('w, 'r) state"
where
  "diff_step E nsExists tmpDir withDiff r s =
     (if \<not> nsExists then
        (None, s\<lparr>trace := trace s @
           [LogInfo (ColorizeJoin [Obj r, Act CreatedAction, Dry DryRunServer])]\<rparr>)
      else
        (case rmDiff E (world s) r of
           (Inl err, w') \<Rightarrow>
             (None, s\<lparr>world := w', trace := trace s @
                [SmDiff r,
                 if isImmutableError E err then
                   if forceMarked E r then
                     LogInfo (ColorizeJoin [Obj r, Act CreatedAction, Dry DryRunServer])
                   else
                     LogError None (ColorizeJoin [Obj r, Str ''immutable'', Dry DryRunServer])
                 else LogError (Some err) (ColorizeUnstructured r)]\<rparr>)
         | (Inr (change, liveObject, mergedObject), w') \<Rightarrow>
             (let s' = s\<lparr>world := w', trace := trace s @
                         [SmDiff r, LogInfo (ColorizeJoin [Chg change, Dry DryRunServer])]\<rparr>
              in
              if withDiff \<and> change_action change = ConfiguredAction
              then writeAndDiff E tmpDir liveObject mergedObject s'
              else (None, s'))))"

text \<open>The loop of lines 246 to 287.\<close>

fun diff_loop ::
  "('w, 'r, 'f, 'p) diff_env \<Rightarrow> bool \<Rightarrow> string \<Rightarrow> bool \<Rightarrow> 'r list \<Rightarrow> ('w, 'r) state \<Rightarrow>
     error option \<times> ('w, 'r) state"
where
  "diff_loop E nsExists tmpDir withDiff [] s = (None, s)"
| "diff_loop E nsExists tmpDir withDiff (r # rs) s =
     (case diff_step E nsExists tmpDir withDiff r s of
        (Some err, s') \<Rightarrow> (Some err, s')
      | (None, s') \<Rightarrow> diff_loop E nsExists tmpDir withDiff rs s')"

text \<open>
  \<open>InstanceDryRunDiff\<close>, lines 234 to 294, started in world \<open>w\<close>: the error it returns, with
  the world it leaves and the trace of what it did.
\<close>

definition InstanceDryRunDiff ::
  "('w, 'r, 'f, 'p) diff_env \<Rightarrow> 'r list \<Rightarrow> 'r list \<Rightarrow> bool \<Rightarrow> string \<Rightarrow> bool \<Rightarrow> 'w \<Rightarrow>
     error option \<times> ('w, 'r) state"
where
  "InstanceDryRunDiff E objects staleObjects nsExists tmpDir withDiff w =
     (case diff_loop E nsExists tmpDir withDiff (sort_Sort (objectLess E) objects)
             \<lparr>world = w, trace = []\<rparr> of
        (Some err, s) \<Rightarrow> (Some err, s)
      | (None, s) \<Rightarrow>
          (None, s\<lparr>trace := trace s @
             map (\<lambda>r. LogInfo (ColorizeJoin [Obj r, Act DeletedAction, Dry DryRunServer]))
               staleObjects\<rparr>))"

subsection \<open>Observables of a report\<close>

text \<open>The objects given to \<open>rm.Diff\<close>, in the order of the calls.\<close>

definition diff_calls :: "'r event list \<Rightarrow> 'r list" where
  "diff_calls tr = concat (map (\<lambda>e. case e of SmDiff r \<Rightarrow> [r] | _ \<Rightarrow> []) tr)"



subsection \<open>A small cluster for concrete reports\<close>

text \<open>
  Objects are numbers ordered by \<open><\<close>, the world counts the files written.  \<open>rm.Diff\<close>
  answers by \<open>answer\<close>; the error \<open>Error ''immutable''\<close> is the immutable one; the objects
  of \<open>forced\<close> carry the force marker; writing a file gives \<open>write_result\<close>.
\<close>

definition ex_diff_env ::
  "(nat \<Rightarrow> error + nat change \<times> nat option \<times> nat option) \<Rightarrow> nat list \<Rightarrow> error option \<Rightarrow>
     (nat, nat, string, string) diff_env"
where
  "ex_diff_env answer forced write_result =
     \<lparr>rmDiff = (\<lambda>w r. (answer r, w)),
      isImmutableError = (\<lambda>err. err = Error ''immutable''),
      forceMarked = (\<lambda>r. r \<in> set forced),
      objectLess = (<),
      yamlMarshal = (\<lambda>obj. case obj of None \<Rightarrow> ''null'' | Some _ \<Rightarrow> ''kind: ConfigMap''),
      filepathJoin = (\<lambda>dir file. dir @ ''/'' @ file),
      writeFile = (\<lambda>w path data. (write_result, Suc w)),
      loadFiles = (\<lambda>w a b. (Inr (a, b), w)),
      compareInputFiles = (\<lambda>a b. Inr (a @ '' '' @ b)),
      writeReport = (\<lambda>w report omit. (None, w))\<rparr>"

text \<open>Every object is configured; the immutable error for the objects of \<open>rejected\<close>.\<close>

definition ex_answer :: "nat list \<Rightarrow> nat \<Rightarrow> error + nat change \<times> nat option \<times> nat option" where
  "ex_answer rejected r =
     (if r \<in> set rejected then Inl (Error ''immutable'')
      else Inr (Change r ConfiguredAction, Some r, Some r))"


section \<open>Properties of the sort\<close>

text \<open>
  An element that is less than every element of the sorted prefix moves to the front.
\<close>

lemma insertionStep_front:
  "\<forall>y\<in>set ys. lt x y \<Longrightarrow> insertionStep lt ys x = x # ys"
proof (induction ys rule: rev_induct)
  case Nil
  show ?case by (simp add: insertionStep.simps)
next
  case (snoc z zs)
  then have "insertionStep lt zs x = x # zs" and "lt x z" by simp_all
  then show ?case by (subst insertionStep.simps) simp
qed

lemma foldl_insertionStep_sorted:
  "sorted_wrt lt xs \<Longrightarrow> \<forall>a\<in>set acc. \<forall>x\<in>set xs. lt a x \<Longrightarrow>
   foldl (insertionStep (sort_Reverse lt)) acc xs = rev xs @ acc"
proof (induction xs arbitrary: acc)
  case Nil
  show ?case by simp
next
  case (Cons x xs)
  have "insertionStep (sort_Reverse lt) acc x = x # acc"
    using Cons.prems(2) by (intro insertionStep_front) (simp add: sort_Reverse_def)
  moreover have "foldl (insertionStep (sort_Reverse lt)) (x # acc) xs = rev xs @ x # acc"
    using Cons.prems by (intro Cons.IH) auto
  ultimately show ?case by simp
qed

text \<open>Sorting a list that ascends in \<open>lt\<close> by the reverse of \<open>lt\<close> reverses it.\<close>

lemma sort_Reverse_sorted: "sorted_wrt lt xs \<Longrightarrow> sort_Sort (sort_Reverse lt) xs = rev xs"
  using foldl_insertionStep_sorted [of lt xs "[]"] by (simp add: sort_Sort_def)

text \<open>The sort permutes its input, whatever \<open>lt\<close> is.\<close>

lemma mset_insertionStep: "mset (insertionStep lt ys x) = add_mset x (mset ys)"
proof (induction lt ys x rule: insertionStep.induct)
  case (1 lt ys x)
  show ?case
  proof (cases "ys \<noteq> [] \<and> lt x (last ys)")
    case True
    then have "mset (insertionStep lt (butlast ys) x) = add_mset x (mset (butlast ys))"
      using 1 by simp
    moreover have "mset ys = add_mset (last ys) (mset (butlast ys))"
      using True by (cases ys rule: rev_cases) simp_all
    ultimately show ?thesis
      using True by (subst insertionStep.simps) simp
  next
    case False
    then show ?thesis by (subst insertionStep.simps) auto
  qed
qed

lemma mset_foldl_insertionStep:
  "mset (foldl (insertionStep lt) acc xs) = mset acc + mset xs"
  by (induction xs arbitrary: acc) (simp_all add: mset_insertionStep)

lemma mset_sort_Sort: "mset (sort_Sort lt xs) = mset xs"
  by (simp add: sort_Sort_def mset_foldl_insertionStep)

lemma sort_Sort_Nil: "sort_Sort lt [] = []"
  by (simp add: sort_Sort_def)

text \<open>
  The order of the calls does not hang on the algorithm.  On a list that ascends in an
  asymmetric order, any permutation that \<open>sort.Sort\<close> may leave for the reversed order,
  one in which no element is less than an earlier one, is the reversed list.
\<close>

lemma sorted_wrt_unique:
  assumes "\<forall>a\<in>set xs. \<forall>b\<in>set xs. R a b \<longrightarrow> \<not> R b a"
    and "sorted_wrt R xs" and "sorted_wrt R ys" and "set ys = set xs"
  shows "ys = xs"
  using assms
proof (induction xs arbitrary: ys)
  case Nil
  then show ?case by simp
next
  case (Cons x xs)
  obtain y ys' where ys: "ys = y # ys'"
    using Cons.prems(4) by (cases ys) simp_all
  have irrefl: "\<not> R a a" if "a \<in> set (x # xs)" for a
    using Cons.prems(1) that by blast
  have x_notin: "x \<notin> set xs"
    using Cons.prems(2) irrefl by auto
  have y_notin: "y \<notin> set ys'"
    using Cons.prems(3,4) irrefl ys by auto
  have "y = x"
  proof (rule ccontr)
    assume neq: "y \<noteq> x"
    then have "x \<in> set ys'" and "y \<in> set xs"
      using Cons.prems(4) ys by auto
    then have "R y x" and "R x y"
      using Cons.prems(2,3) ys by auto
    moreover have "x \<in> set (x # xs)" and "y \<in> set (x # xs)"
      using \<open>y \<in> set xs\<close> by simp_all
    ultimately show False
      using Cons.prems(1) by blast
  qed
  moreover have "set ys' = set xs"
    using Cons.prems(4) ys x_notin y_notin \<open>y = x\<close> by auto
  then have "ys' = xs"
    using Cons.IH [of ys'] Cons.prems(1,2,3) ys by auto
  ultimately show ?case using ys by simp
qed

lemma sorted_wrt_asym_distinct:
  "sorted_wrt R xs \<Longrightarrow> \<forall>a\<in>set xs. \<forall>b\<in>set xs. R a b \<longrightarrow> \<not> R b a \<Longrightarrow> distinct xs"
proof (induction xs)
  case Nil
  show ?case by simp
next
  case (Cons x xs)
  have "x \<notin> set xs"
  proof
    assume "x \<in> set xs"
    then have "R x x" using Cons.prems(1) by simp
    then show False using Cons.prems(2) by simp
  qed
  moreover have "distinct xs"
    using Cons by simp
  ultimately show ?case by simp
qed

lemma sort_contract_unique:
  assumes asym: "\<forall>a\<in>set xs. \<forall>b\<in>set xs. lt a b \<longrightarrow> \<not> lt b a"
    and sorted: "sorted_wrt lt xs"
    and perm: "mset ys = mset xs"
    and contract: "\<forall>i j. i < j \<and> j < length ys \<longrightarrow> \<not> sort_Reverse lt (ys ! j) (ys ! i)"
  shows "ys = rev xs"
proof -
  have irrefl: "\<not> lt a a" if "a \<in> set xs" for a
    using asym that by blast
  have "distinct xs"
    using sorted asym by (rule sorted_wrt_asym_distinct)
  then have dist: "distinct ys"
    using perm mset_eq_imp_distinct_iff [of ys xs] by simp
  have sets: "set ys = set xs"
    using perm by (rule mset_eq_setD)
  have total: "lt a b \<or> lt b a" if ab: "a \<in> set xs" "b \<in> set xs" "a \<noteq> b" for a b
  proof -
    obtain i where i: "i < length xs" "xs ! i = a"
      using ab(1) by (auto simp: in_set_conv_nth)
    obtain j where j: "j < length xs" "xs ! j = b"
      using ab(2) by (auto simp: in_set_conv_nth)
    have "i \<noteq> j" using ab(3) i j by auto
    then consider "i < j" | "j < i" by linarith
    then show ?thesis
    proof cases
      case 1
      then have "lt (xs ! i) (xs ! j)"
        using sorted j(1) by (simp add: sorted_wrt_iff_nth_less)
      then show ?thesis using i j by simp
    next
      case 2
      then have "lt (xs ! j) (xs ! i)"
        using sorted i(1) by (simp add: sorted_wrt_iff_nth_less)
      then show ?thesis using i j by simp
    qed
  qed
  have "sorted_wrt (\<lambda>a b. lt b a) ys"
    unfolding sorted_wrt_iff_nth_less
  proof (intro allI impI)
    fix i j assume ij: "i < j" "j < length ys"
    then have i: "i < length ys" by simp
    have "ys ! i \<noteq> ys ! j"
      using dist ij i by (simp add: nth_eq_iff_index_eq)
    moreover have "ys ! i \<in> set xs"
      using i sets nth_mem [of i ys] by simp
    moreover have "ys ! j \<in> set xs"
      using ij(2) sets nth_mem [of j ys] by simp
    moreover have "\<not> lt (ys ! i) (ys ! j)"
      using contract ij by (simp add: sort_Reverse_def)
    ultimately show "lt (ys ! j) (ys ! i)"
      using total [of "ys ! i" "ys ! j"] by simp
  qed
  moreover have "sorted_wrt (\<lambda>a b. lt b a) (rev xs)"
    using sorted by (simp add: sorted_wrt_rev)
  moreover have "\<forall>a\<in>set (rev xs). \<forall>b\<in>set (rev xs). lt b a \<longrightarrow> \<not> lt a b"
    using asym by auto
  moreover have "set ys = set (rev xs)"
    using sets by simp
  ultimately show ?thesis
    by (intro sorted_wrt_unique [where R = "\<lambda>a b. lt b a"])
qed

section \<open>Properties of the deletion loop\<close>

lemma delete_loop_delete_calls:
  "delete_calls (trace (delete_loop E opts rs s)) = delete_calls (trace s) @ rs"
  by (induction rs arbitrary: s)
     (auto simp: delete_calls_def split: prod.splits sum.splits)

lemma delete_loop_effect_calls:
  "effect_calls (trace (delete_loop E opts rs s)) =
     effect_calls (trace s) @ map (\<lambda>r. SmDelete r opts) rs"
  by (induction rs arbitrary: s)
     (auto simp: effect_calls_def split: prod.splits sum.splits)

lemma delete_loop_waits:
  "filter is_wait (trace (delete_loop E opts rs s)) = filter is_wait (trace s)"
  by (induction rs arbitrary: s) (auto split: prod.splits sum.splits)

lemma delete_loop_hasErrors:
  "hasErrors (delete_loop E opts rs s) \<longleftrightarrow>
     hasErrors s \<or> (\<exists>res\<in>set (delete_results E opts (world s) rs). isl res)"
  by (induction rs arbitrary: s) (auto split: prod.splits sum.splits)

lemma delete_loop_cs:
  "cs (delete_loop E opts rs s) = cs s @ changes_of (delete_results E opts (world s) rs)"
  by (induction rs arbitrary: s) (auto simp: changes_of_def split: prod.splits sum.splits)

lemma delete_loop_world:
  "world (delete_loop E opts rs s) = delete_world E opts (world s) rs"
  by (induction rs arbitrary: s) (auto split: prod.splits sum.splits)

text \<open>Loading the instance makes no call that acts on the cluster.\<close>

lemma loadObjects_Inr_trace:
  "loadObjects E fl args w = Inr (name, inst, listed, w', tr) \<Longrightarrow>
   tr = [NewResourceManager, StorageGet name (namespace fl)]"
  by (auto simp: loadObjects_def Let_def split: list.splits prod.splits option.splits sum.splits)

lemma loadObjects_Inl_trace:
  "loadObjects E fl args w = Inl (oc, wx, trx) \<Longrightarrow> effect_calls trx = []"
  by (auto simp: loadObjects_def Let_def effect_calls_def
           split: list.splits prod.splits option.splits sum.splits)

section \<open>Properties of the delete command\<close>

text \<open>The per-resource delete calls of a run that is not a dry run follow the sorted slice.\<close>

lemma delete_calls_real_run:
  assumes "loadObjects E fl args w = Inr (name, inst, listed, w', tr)"
    and "\<not> dryrun fl"
  shows "delete_calls (trace_of (runDeleteCmd E fl args w)) = deletion_order E listed"
proof -
  have tr_eq: "tr = [NewResourceManager, StorageGet name (namespace fl)]"
    using assms(1) by (rule loadObjects_Inr_trace)
  have loop: "delete_calls (trace (delete_loop E opts (deletion_order E listed) s)) =
                delete_calls (trace s) @ deletion_order E listed" for opts s
    by (rule delete_loop_delete_calls)
  show ?thesis
    using assms
    by (simp add: runDeleteCmd_def Let_def tr_eq split: prod.splits option.splits)
       (simp add: delete_calls_def loop [unfolded delete_calls_def])
qed

lemma filter_effect_loop:
  "filter is_effect (trace (delete_loop E opts rs s)) =
     filter is_effect (trace s) @ map (\<lambda>r. SmDelete r opts) rs"
  using delete_loop_effect_calls [of E opts rs s] by (simp add: effect_calls_def)

subsection \<open>The small cluster, evaluated\<close>

lemma ex_load:
  "loadObjects (ex_env listed failing rr) (ex_flags dry wt) [''app''] w =
     Inr (''app'', \<lparr>inst_name = ''app'', inst_namespace = ''default''\<rparr>, listed, w,
          [NewResourceManager, StorageGet ''app'' ''default''])"
  by (simp add: loadObjects_def ex_env_def ex_flags_def)

lemma ex_dryrun: "dryrun (ex_flags dry wt) = dry"
  by (simp add: ex_flags_def)

lemma ex_wait: "wait (ex_flags dry wt) = wt"
  by (simp add: ex_flags_def)

lemma ex_namespace: "namespace (ex_flags dry wt) = ''default''"
  by (simp add: ex_flags_def)

lemma ex_timeout: "timeout (ex_flags dry wt) = 300"
  by (simp add: ex_flags_def)

lemma ex_record:
  "storageDelete (ex_env listed failing rr) w name ns = (rr, w)"
  by (simp add: ex_env_def)

lemma ex_waitOptions:
  "defaultWaitOptions (ex_env listed failing rr) = \<lparr>wo_interval = 2, wo_timeout = 60\<rparr>"
  by (simp add: ex_env_def)

lemma ex_order: "deletion_order (ex_env listed failing rr) [10, 20, 30] = [30, 20, 10]"
  by (simp add: sort_Sort_def ex_env_def insertionStep.simps sort_Reverse_def)

lemma ex_order_one: "deletion_order (ex_env listed failing rr) [10] = [10]"
  by (simp add: sort_Sort_def insertionStep.simps)

lemma ex_results_ok:
  "delete_results (ex_env listed [] rr) opts w [30, 20, 10] =
     [Inr (Change 30 DeletedAction), Inr (Change 20 DeletedAction), Inr (Change 10 DeletedAction)]"
  by (simp add: ex_env_def)

lemma ex_results_failing:
  "delete_results (ex_env listed [20] rr) opts w [30, 20, 10] =
     [Inr (Change 30 DeletedAction), Inl (Error ''forbidden''), Inr (Change 10 DeletedAction)]"
  by (simp add: ex_env_def)

lemma ex_world: "delete_world (ex_env listed [] rr) opts [10, 20, 30] [30, 20, 10] = []"
  by (simp add: ex_env_def)

subsection \<open>Order of the calls\<close>

text \<open>
  C1.  When the objects listed for the instance are in canonical order, each one before
  every later one in the order of the library (\<open>objLess\<close>), a deletion run that is not a
  dry run issues its per-resource delete calls in exactly the reversed order.
\<close>

theorem reverse_order_deletion:
  assumes "loadObjects E fl args w = Inr (name, inst, listed, w', tr)"
    and "\<not> dryrun fl"
    and "sorted_wrt (objLess E) listed"
  shows "delete_calls (trace_of (runDeleteCmd E fl args w)) = rev listed"
  using delete_calls_real_run [OF assms(1,2)] sort_Reverse_sorted [OF assms(3)] by simp

theorem reverse_order_deletion_witness:
  "delete_calls (trace_of (runDeleteCmd (ex_env [10, 20, 30] [] None) (ex_flags False True)
      [''app''] [10, 20, 30])) = [30, 20, 10]"
proof -
  have "\<not> dryrun (ex_flags False True)"
    by (simp add: ex_flags_def)
  moreover have "sorted_wrt (objLess (ex_env [10, 20, 30] [] None)) [10, 20, 30]"
    by (simp add: ex_env_def)
  ultimately show ?thesis
    using reverse_order_deletion [OF ex_load] by fastforce
qed

subsection \<open>Dry run\<close>

text \<open>
  C2, amended.  With the dry-run flag set the command makes no per-resource delete call,
  no call that deletes the instance record and no termination wait, whatever its input.
  When the instance and its objects were loaded, it logs one simulated \<open>DeletedAction\<close>
  line per object, in deletion order, and returns \<open>nil\<close> at once, leaving the world as
  loading left it.
\<close>

theorem dry_run_no_effects:
  assumes "dryrun fl"
  shows "effect_calls (trace_of (runDeleteCmd E fl args w)) = [] \<and>
         (\<forall>name inst listed w' tr.
            loadObjects E fl args w = Inr (name, inst, listed, w', tr) \<longrightarrow>
            runDeleteCmd E fl args w =
              (Return None, w',
               tr @ map (\<lambda>object. LogInfo (ColorizeJoin
                            [Obj object, Act DeletedAction, Dry DryRunClient]))
                       (deletion_order E listed)))"
proof (cases "loadObjects E fl args w")
  case (Inl early)
  obtain oc wx trx where early: "early = (oc, wx, trx)" by (cases early)
  have "effect_calls trx = []"
    using Inl early loadObjects_Inl_trace by fastforce
  then show ?thesis
    using Inl early by (simp add: runDeleteCmd_def)
next
  case (Inr loaded)
  obtain name inst listed w' tr where loaded: "loaded = (name, inst, listed, w', tr)"
    by (cases loaded)
  have tr_eq: "tr = [NewResourceManager, StorageGet name (namespace fl)]"
    using Inr loaded loadObjects_Inr_trace by fastforce
  show ?thesis
    using Inr loaded assms
    by (simp add: runDeleteCmd_def Let_def tr_eq effect_calls_def filter_map comp_def)
qed

theorem dry_run_no_effects_witness:
  "effect_calls (trace_of (runDeleteCmd (ex_env [10, 20, 30] [] None) (ex_flags True True)
      [''app''] [10, 20, 30])) = [] \<and>
   runDeleteCmd (ex_env [10, 20, 30] [] None) (ex_flags True True) [''app''] [10, 20, 30] =
     (Return None, [10, 20, 30],
      [NewResourceManager, StorageGet ''app'' ''default'',
       LogInfo (ColorizeJoin [Obj 30, Act DeletedAction, Dry DryRunClient]),
       LogInfo (ColorizeJoin [Obj 20, Act DeletedAction, Dry DryRunClient]),
       LogInfo (ColorizeJoin [Obj 10, Act DeletedAction, Dry DryRunClient])])"
  using dry_run_no_effects [where fl = "ex_flags True True"
      and E = "ex_env [10, 20, 30] [] None" and args = "[''app'']" and w = "[10, 20, 30]"]
  by (simp add: ex_dryrun ex_load ex_order effect_calls_def)

text \<open>
  A dry run does not return \<open>nil\<close> for every input: without an instance name it returns
  the error of line 71, and when the instance is not in the storage it returns the error of
  \<open>iStorage.Get\<close> (line 88), in both cases before any object is reported.
\<close>

theorem dry_run_no_effects_counterexample:
  "dryrun (ex_flags True True) = True \<and>
   runDeleteCmd (ex_env [10, 20, 30] [] None) (ex_flags True True) [] [10, 20, 30] =
     (Return (Some (Error ''name is required'')), [10, 20, 30], []) \<and>
   runDeleteCmd (ex_env_missing [10, 20, 30]) (ex_flags True True) [''app''] [10, 20, 30] =
     (Return (Some (Error ''instance not found'')), [10, 20, 30],
      [NewResourceManager, StorageGet ''app'' ''default''])"
  by (simp add: runDeleteCmd_def loadObjects_def ex_env_missing_def ex_env_def ex_flags_def)

subsection \<open>Failed deletes\<close>

text \<open>
  C3.  In a run that is not a dry run, when the resource manager refuses at least one of
  the delete calls, the delete of every object is still attempted, in deletion order and
  once for each listed object; no call deletes the instance record, the termination wait
  is not entered, and the process exits with status 1.
\<close>

theorem partial_failure:
  assumes "loadObjects E fl args w = Inr (name, inst, listed, w', tr)"
    and "\<not> dryrun fl"
    and "\<exists>res\<in>set (delete_results E (DeleteOptions name (namespace fl)) w'
                      (deletion_order E listed)). isl res"
  shows "outcome_of (runDeleteCmd E fl args w) = Exit 1 \<and>
         effect_calls (trace_of (runDeleteCmd E fl args w)) =
           map (\<lambda>r. SmDelete r (DeleteOptions name (namespace fl))) (deletion_order E listed) \<and>
         mset (deletion_order E listed) = mset listed"
proof -
  have tr_eq: "tr = [NewResourceManager, StorageGet name (namespace fl)]"
    using assms(1) by (rule loadObjects_Inr_trace)
  show ?thesis
    using assms
    by (simp add: runDeleteCmd_def Let_def tr_eq effect_calls_def filter_effect_loop delete_loop_hasErrors
          mset_sort_Sort)
qed

theorem partial_failure_witness:
  "outcome_of (runDeleteCmd (ex_env [10, 20, 30] [20] None) (ex_flags False True)
      [''app''] [10, 20, 30]) = Exit 1 \<and>
   effect_calls (trace_of (runDeleteCmd (ex_env [10, 20, 30] [20] None) (ex_flags False True)
      [''app''] [10, 20, 30])) =
     [SmDelete 30 (DeleteOptions ''app'' ''default''),
      SmDelete 20 (DeleteOptions ''app'' ''default''),
      SmDelete 10 (DeleteOptions ''app'' ''default'')]"
  using partial_failure [OF ex_load [where listed = "[10, 20, 30]" and failing = "[20]"
      and rr = None and dry = False and wt = True and w = "[10, 20, 30]"]]
  unfolding ex_order ex_results_failing ex_dryrun ex_namespace by simp

subsection \<open>All deletes succeed\<close>

text \<open>
  C4.  In a run that is not a dry run, when every per-resource delete call succeeds, the
  call that deletes the instance record is made exactly once, after the last per-resource
  delete call, and nothing but termination waits follows it.
\<close>

theorem all_success_order:
  assumes "loadObjects E fl args w = Inr (name, inst, listed, w', tr)"
    and "\<not> dryrun fl"
    and "\<forall>res\<in>set (delete_results E (DeleteOptions name (namespace fl)) w'
                      (deletion_order E listed)). \<not> isl res"
  shows "\<exists>ws. effect_calls (trace_of (runDeleteCmd E fl args w)) =
           map (\<lambda>r. SmDelete r (DeleteOptions name (namespace fl))) (deletion_order E listed) @
           StorageDelete (inst_name inst) (inst_namespace inst) # ws \<and>
           (\<forall>e\<in>set ws. is_wait e)"
proof -
  have tr_eq: "tr = [NewResourceManager, StorageGet name (namespace fl)]"
    using assms(1) by (rule loadObjects_Inr_trace)
  show ?thesis
    using assms
    by (simp add: runDeleteCmd_def Let_def tr_eq effect_calls_def filter_effect_loop
          delete_loop_hasErrors split: prod.splits option.splits)
qed

theorem all_success_order_witness:
  "\<exists>ws. effect_calls (trace_of (runDeleteCmd (ex_env [10, 20, 30] [] None)
      (ex_flags False True) [''app''] [10, 20, 30])) =
     [SmDelete 30 (DeleteOptions ''app'' ''default''),
      SmDelete 20 (DeleteOptions ''app'' ''default''),
      SmDelete 10 (DeleteOptions ''app'' ''default''),
      StorageDelete ''app'' ''default''] @ ws"
  using all_success_order [OF ex_load [where listed = "[10, 20, 30]" and failing = "[]"
      and rr = None and dry = False and wt = True and w = "[10, 20, 30]"]]
  unfolding ex_order ex_results_ok ex_dryrun ex_namespace by auto

text \<open>
  C9.  When every per-resource delete call succeeds and the deletion of the instance
  record fails, the command returns that error and never enters the termination wait,
  whatever the wait flag and the changes are.
\<close>

theorem record_delete_failure:
  assumes "loadObjects E fl args w = Inr (name, inst, listed, w', tr)"
    and "\<not> dryrun fl"
    and "\<forall>res\<in>set (delete_results E (DeleteOptions name (namespace fl)) w'
                      (deletion_order E listed)). \<not> isl res"
    and "storageDelete E
           (delete_world E (DeleteOptions name (namespace fl)) w' (deletion_order E listed))
           (inst_name inst) (inst_namespace inst) = (Some err, w'')"
  shows "outcome_of (runDeleteCmd E fl args w) = Return (Some err) \<and>
         filter is_wait (trace_of (runDeleteCmd E fl args w)) = []"
proof -
  have tr_eq: "tr = [NewResourceManager, StorageGet name (namespace fl)]"
    using assms(1) by (rule loadObjects_Inr_trace)
  show ?thesis
    using assms
    by (simp add: runDeleteCmd_def Let_def tr_eq delete_loop_waits delete_loop_world
          delete_loop_hasErrors)
qed

theorem record_delete_failure_witness:
  "outcome_of (runDeleteCmd (ex_env [10, 20, 30] [] (Some (Error ''conflict'')))
      (ex_flags False True) [''app''] [10, 20, 30]) = Return (Some (Error ''conflict'')) \<and>
   filter is_wait (trace_of (runDeleteCmd (ex_env [10, 20, 30] [] (Some (Error ''conflict'')))
      (ex_flags False True) [''app''] [10, 20, 30])) = []"
  using record_delete_failure [OF ex_load [where listed = "[10, 20, 30]" and failing = "[]"
      and rr = "Some (Error ''conflict'')" and dry = False and wt = True
      and w = "[10, 20, 30]"], where err = "Error ''conflict''" and w'' = "[]"]
  unfolding ex_order ex_results_ok ex_world ex_dryrun ex_namespace ex_record by simp

text \<open>
  C6, amended.  In a run that is not a dry run, when every per-resource delete call
  succeeds and the deletion of the instance record succeeds, the termination wait is
  entered, once and for the deleted objects, if and only if waiting is enabled and the
  ChangeSet holds at least one \<open>DeletedAction\<close> change; otherwise the command returns
  \<open>nil\<close> without waiting.
\<close>

theorem wait_iff_deleted:
  assumes "loadObjects E fl args w = Inr (name, inst, listed, w', tr)"
    and "\<not> dryrun fl"
    and "\<forall>res\<in>set (delete_results E (DeleteOptions name (namespace fl)) w'
                      (deletion_order E listed)). \<not> isl res"
    and "fst (storageDelete E
           (delete_world E (DeleteOptions name (namespace fl)) w' (deletion_order E listed))
           (inst_name inst) (inst_namespace inst)) = None"
    and "deleted = SelectObjectsFromSet
           (changes_of (delete_results E (DeleteOptions name (namespace fl)) w'
              (deletion_order E listed))) DeletedAction"
  shows "filter is_wait (trace_of (runDeleteCmd E fl args w)) =
           (if wait fl \<and> deleted \<noteq> []
            then [WaitForTermination deleted ((defaultWaitOptions E)\<lparr>wo_timeout := timeout fl\<rparr>)]
            else []) \<and>
         (\<not> (wait fl \<and> deleted \<noteq> []) \<longrightarrow>
            outcome_of (runDeleteCmd E fl args w) = Return None)"
proof -
  have tr_eq: "tr = [NewResourceManager, StorageGet name (namespace fl)]"
    using assms(1) by (rule loadObjects_Inr_trace)
  show ?thesis
    using assms
    by (auto simp add: runDeleteCmd_def Let_def tr_eq delete_loop_waits delete_loop_world
          delete_loop_hasErrors delete_loop_cs split: prod.splits option.splits)
qed

theorem wait_iff_deleted_witness:
  "filter is_wait (trace_of (runDeleteCmd (ex_env [10, 20, 30] [] None) (ex_flags False True)
      [''app''] [10, 20, 30])) =
     [WaitForTermination [30, 20, 10] \<lparr>wo_interval = 2, wo_timeout = 300\<rparr>]"
  using wait_iff_deleted [OF ex_load [where listed = "[10, 20, 30]" and failing = "[]"
      and rr = None and dry = False and wt = True and w = "[10, 20, 30]"],
      where deleted = "[30, 20, 10]"]
  unfolding ex_order ex_results_ok ex_world ex_dryrun ex_wait ex_namespace ex_timeout
    ex_record ex_waitOptions
  by (simp add: changes_of_def SelectObjectsFromSet_def)

text \<open>
  Without the condition on the instance record the equivalence fails: all three deletes
  succeed with \<open>DeletedAction\<close> and waiting is enabled, but the deletion of the instance
  record fails, and the run returns that error at line 126 without a wait.
\<close>

theorem wait_iff_deleted_counterexample:
  "dryrun (ex_flags False True) = False \<and>
   wait (ex_flags False True) = True \<and>
   delete_results (ex_env [10, 20, 30] [] (Some (Error ''conflict'')))
      (DeleteOptions ''app'' ''default'') [10, 20, 30] [30, 20, 10] =
     [Inr (Change 30 DeletedAction), Inr (Change 20 DeletedAction),
      Inr (Change 10 DeletedAction)] \<and>
   runDeleteCmd (ex_env [10, 20, 30] [] (Some (Error ''conflict''))) (ex_flags False True)
      [''app''] [10, 20, 30] =
     (Return (Some (Error ''conflict'')), [],
      [NewResourceManager, StorageGet ''app'' ''default'',
       LogInfo (Sprintf ''deleting %v resource(s)...'' [3]),
       SmDelete 30 (DeleteOptions ''app'' ''default''),
       LogInfo (ColorizeJoin [Chg (Change 30 DeletedAction)]),
       SmDelete 20 (DeleteOptions ''app'' ''default''),
       LogInfo (ColorizeJoin [Chg (Change 20 DeletedAction)]),
       SmDelete 10 (DeleteOptions ''app'' ''default''),
       LogInfo (ColorizeJoin [Chg (Change 10 DeletedAction)]),
       StorageDelete ''app'' ''default''])"
proof -
  have "deletion_order (ex_env [10, 20, 30] [] (Some (Error ''conflict''))) [10, 20, 30] =
          [30, 20, 10]"
    by (rule ex_order)
  then show ?thesis
    by (simp add: runDeleteCmd_def ex_load Let_def ex_results_ok ex_dryrun ex_wait)
       (simp add: ex_env_def ex_flags_def)
qed

text \<open>
  C10, amended.  For an instance whose list of objects is empty, a run that is not a dry
  run makes no per-resource delete call, still makes the call that deletes the instance
  record, makes no termination wait whatever the wait flag is, and returns what the
  deletion of the instance record returned: \<open>nil\<close> when it succeeded.
\<close>

theorem empty_instance:
  assumes "loadObjects E fl args w = Inr (name, inst, [], w', tr)"
    and "\<not> dryrun fl"
  shows "outcome_of (runDeleteCmd E fl args w) =
           Return (fst (storageDelete E w' (inst_name inst) (inst_namespace inst))) \<and>
         effect_calls (trace_of (runDeleteCmd E fl args w)) =
           [StorageDelete (inst_name inst) (inst_namespace inst)]"
proof -
  have tr_eq: "tr = [NewResourceManager, StorageGet name (namespace fl)]"
    using assms(1) by (rule loadObjects_Inr_trace)
  show ?thesis
    using assms
    by (simp add: runDeleteCmd_def Let_def tr_eq sort_Sort_Nil SelectObjectsFromSet_def
          effect_calls_def split: prod.splits option.splits)
qed

theorem empty_instance_witness:
  "outcome_of (runDeleteCmd (ex_env [] [] None) (ex_flags False True) [''app''] []) =
     Return None \<and>
   effect_calls (trace_of (runDeleteCmd (ex_env [] [] None) (ex_flags False True)
      [''app''] [])) = [StorageDelete ''app'' ''default'']"
  using empty_instance [OF ex_load [where listed = "[]" and failing = "[]"
      and rr = None and dry = False and wt = True and w = "[]"]]
  unfolding ex_dryrun ex_record by simp

text \<open>
  The run of an empty instance does not always return \<open>nil\<close>: when the deletion of the
  instance record fails, its error is returned.
\<close>

theorem empty_instance_counterexample:
  "listObjects (ex_env [] [] (Some (Error ''conflict'')))
      \<lparr>inst_name = ''app'', inst_namespace = ''default''\<rparr> = Inr [] \<and>
   dryrun (ex_flags False True) = False \<and>
   runDeleteCmd (ex_env [] [] (Some (Error ''conflict''))) (ex_flags False True) [''app''] [] =
     (Return (Some (Error ''conflict'')), [],
      [NewResourceManager, StorageGet ''app'' ''default'',
       LogInfo (Sprintf ''deleting %v resource(s)...'' [0]),
       StorageDelete ''app'' ''default''])"
  by (simp add: runDeleteCmd_def ex_load sort_Sort_Nil ex_dryrun ex_namespace ex_record Let_def)
     (simp add: ex_env_def)

section \<open>Properties of the dry-run diff report\<close>




text \<open>Without the namespace every object is reported as created and nothing is called.\<close>

lemma diff_loop_no_namespace:
  "diff_loop E False tmpDir withDiff rs s =
     (None, s\<lparr>trace := trace s @
        map (\<lambda>r. LogInfo (ColorizeJoin [Obj r, Act CreatedAction, Dry DryRunServer])) rs\<rparr>)"
  by (induction rs arbitrary: s) (simp_all add: diff_step_def)














subsection \<open>The small cluster of the report, evaluated\<close>

lemma ex_rmDiff: "rmDiff (ex_diff_env answer forced wr) w r = (answer r, w)"
  by (simp add: ex_diff_env_def)

lemma ex_immutable: "isImmutableError (ex_diff_env answer forced wr) (Error ''immutable'')"
  by (simp add: ex_diff_env_def)

lemma ex_forced: "forceMarked (ex_diff_env answer forced wr) r = (r \<in> set forced)"
  by (simp add: ex_diff_env_def)

lemma ex_diff_order:
  "sort_Sort (objectLess (ex_diff_env answer forced wr)) [20, 10] = [10, 20]"
  by (simp add: sort_Sort_def ex_diff_env_def insertionStep.simps)




subsection \<open>Classification of the desired objects\<close>

text \<open>
  C5.  When the namespace exists and \<open>rm.Diff\<close> of an object fails with an immutable-field
  error, an object that carries the force marker is logged at info level as
  \<open>CreatedAction\<close>, an object without it is logged at error level as \<open>immutable\<close>, with no
  error value; in both cases the loop goes on with the objects that follow.
\<close>

theorem immutable_conflict:
  assumes "rmDiff E (world s) r = (Inl err, w')"
    and "isImmutableError E err"
  shows "diff_loop E True tmpDir withDiff (r # rs) s =
           diff_loop E True tmpDir withDiff rs
             (s\<lparr>world := w', trace := trace s @
                [SmDiff r,
                 if forceMarked E r
                 then LogInfo (ColorizeJoin [Obj r, Act CreatedAction, Dry DryRunServer])
                 else LogError None (ColorizeJoin [Obj r, Str ''immutable'', Dry DryRunServer])]\<rparr>)"
  using assms by (simp add: diff_step_def)

theorem immutable_conflict_witness:
  "diff_loop (ex_diff_env (ex_answer [10, 20]) [20] None) True ''/tmp'' True [10, 20]
      \<lparr>world = 0, trace = []\<rparr> =
     (None, \<lparr>world = 0, trace =
        [SmDiff 10, LogError None (ColorizeJoin [Obj 10, Str ''immutable'', Dry DryRunServer]),
         SmDiff 20, LogInfo (ColorizeJoin [Obj 20, Act CreatedAction, Dry DryRunServer])]\<rparr>)"
proof -
  let ?E = "ex_diff_env (ex_answer [10, 20]) [20] None"
  have r10: "rmDiff ?E (world \<lparr>world = 0::nat, trace = []\<rparr>) 10 = (Inl (Error ''immutable''), 0)"
    by (simp add: ex_rmDiff ex_answer_def)
  have "diff_loop ?E True ''/tmp'' True [10, 20] \<lparr>world = 0, trace = []\<rparr> =
          diff_loop ?E True ''/tmp'' True [20]
            \<lparr>world = 0, trace = [SmDiff 10,
               LogError None (ColorizeJoin [Obj 10, Str ''immutable'', Dry DryRunServer])]\<rparr>"
    using immutable_conflict [OF r10 ex_immutable, of "''/tmp''" True "[20]"]
    by (simp add: ex_forced)
  also have "\<dots> = diff_loop ?E True ''/tmp'' True []
            \<lparr>world = 0, trace = [SmDiff 10,
               LogError None (ColorizeJoin [Obj 10, Str ''immutable'', Dry DryRunServer]),
               SmDiff 20, LogInfo (ColorizeJoin [Obj 20, Act CreatedAction, Dry DryRunServer])]\<rparr>"
    by (simp add: diff_step_def ex_rmDiff ex_answer_def ex_immutable ex_forced)
  finally show ?thesis by simp
qed

text \<open>
  C7.  When the namespace does not exist, the report logs every desired object as
  \<open>CreatedAction\<close> in canonical order, then every stale object as \<open>DeletedAction\<close>, and
  returns \<open>nil\<close>; \<open>rm.Diff\<close> is called for no object and the world is left as it was.
  Whether the namespace exists is the one flag \<open>nsExists\<close> of the run.
\<close>

theorem namespace_missing:
  "InstanceDryRunDiff E objects staleObjects False tmpDir withDiff w =
     (None, \<lparr>world = w, trace =
        map (\<lambda>r. LogInfo (ColorizeJoin [Obj r, Act CreatedAction, Dry DryRunServer]))
          (sort_Sort (objectLess E) objects) @
        map (\<lambda>r. LogInfo (ColorizeJoin [Obj r, Act DeletedAction, Dry DryRunServer]))
          staleObjects\<rparr>) \<and>
   diff_calls (trace (snd (InstanceDryRunDiff E objects staleObjects False tmpDir withDiff w))) = []"
  by (simp add: InstanceDryRunDiff_def diff_loop_no_namespace diff_calls_def)

theorem namespace_missing_witness:
  "InstanceDryRunDiff (ex_diff_env (ex_answer []) [] None) [20, 10] [30] False ''/tmp'' True 0 =
     (None, \<lparr>world = 0, trace =
        [LogInfo (ColorizeJoin [Obj 10, Act CreatedAction, Dry DryRunServer]),
         LogInfo (ColorizeJoin [Obj 20, Act CreatedAction, Dry DryRunServer]),
         LogInfo (ColorizeJoin [Obj 30, Act DeletedAction, Dry DryRunServer])]\<rparr>)"
  using namespace_missing [of "ex_diff_env (ex_answer []) [] None" "[20, 10]" "[30]" "''/tmp''"
      True 0]
  by (simp add: ex_diff_order)




end
